theory Spec2Isabelle
  imports Complex_Main "HOL-Library.Sublist"
begin

section \<open>Data model\<close>

text \<open>
  The enum \<^verbatim>\<open>ConnectionStatus\<close> and the interface \<^verbatim>\<open>Transcription\<close> of the types module,
  and the visual status \<^verbatim>\<open>'idle' | 'listening' | 'speaking' | 'waking'\<close> of the
  \<^verbatim>\<open>currentStatus\<close> state of \<^verbatim>\<open>App\<close>.
\<close>

datatype ConnectionStatus = DISCONNECTED | CONNECTING | CONNECTED | ERROR

datatype VisualStatus = Idle | Listening | Speaking | Waking

datatype Sender = User | Model

record Transcription =
  t_text :: string
  t_sender :: Sender
  t_timestamp :: int

text \<open>The accumulating draft held in \<^verbatim>\<open>transcriptRef\<close>: \<^verbatim>\<open>{ input: string; output: string }\<close>
  (\<open>output\<close> is reserved in theory text, so both fields carry a prefix).\<close>

record TranscriptDraft =
  draft_input :: string
  draft_output :: string

text \<open>
  What \<^verbatim>\<open>handleMessage\<close> reads of a \<^verbatim>\<open>LiveServerMessage\<close>: the optional inline audio
  payload \<^verbatim>\<open>serverContent.modelTurn.parts[0].inlineData.data\<close>, the text of the optional
  input and output transcriptions, and the two flags.
\<close>

record LiveServerMessage =
  audioData :: "string option"
  inputTranscription :: "string option"
  outputTranscription :: "string option"
  turnComplete :: bool
  interrupted :: bool

text \<open>
  Calls into the browser and the client library are recorded in a log, oldest first.
  Objects created by the component (audio contexts, the live session and its promise,
  buffer sources, recognizers) are named by natural numbers drawn from a counter.
  \<^verbatim>\<open>SourceStart i t d\<close> is \<^verbatim>\<open>source.start(t)\<close> on source \<open>i\<close> whose buffer lasts \<open>d\<close>
  seconds.
\<close>

datatype effect =
    GetUserMedia
  | LiveConnect nat
  | SessionClose nat
  | AudioCtxClose nat
  | SourceStart nat real real
  | SourceStop nat
  | RecognitionStart nat
  | RecognitionStop nat

text \<open>
  A pending \<^verbatim>\<open>setTimeout\<close>: its delay in milliseconds and what its callback calls.
\<close>

datatype callback = CallStopSession | CallRecognitionStart nat

type_synonym timer = "nat \<times> callback"

text \<open>
  The state of \<^verbatim>\<open>App\<close>: the \<^verbatim>\<open>useState\<close> values and the \<^verbatim>\<open>useRef\<close> cells the session
  logic touches, followed by the environment (whether the window offers a
  \<^verbatim>\<open>SpeechRecognition\<close> constructor, the log of calls, the pending timers and the
  counter for new objects). Times of the output clock are seconds, as reals.
\<close>

record App =
  status :: ConnectionStatus
  isHandsFree :: bool
  transcriptions :: "Transcription list"
  currentStatus :: VisualStatus
  sessionRef :: "nat option"
  sessionPromiseRef :: "nat option"
  inputAudioCtxRef :: "nat option"
  outputAudioCtxRef :: "nat option"
  nextStartTimeRef :: real
  sourcesRef :: "nat list"
  transcriptRef :: TranscriptDraft
  localRecognitionRef :: "nat option"
  speechRecognitionAvailable :: bool
  effects :: "effect list"
  timers :: "timer list"
  fresh :: nat

text \<open>The initial values of the \<^verbatim>\<open>useState\<close> and \<^verbatim>\<open>useRef\<close> calls.\<close>

definition initialApp :: App where
  "initialApp =
     \<lparr> status = DISCONNECTED, isHandsFree = False, transcriptions = [],
       currentStatus = Idle, sessionRef = None, sessionPromiseRef = None,
       inputAudioCtxRef = None, outputAudioCtxRef = None, nextStartTimeRef = 0,
       sourcesRef = [], transcriptRef = \<lparr> draft_input = [], draft_output = [] \<rparr>,
       localRecognitionRef = None, speechRecognitionAvailable = True,
       effects = [], timers = [], fresh = 0 \<rparr>"

definition call :: "effect \<Rightarrow> App \<Rightarrow> App" where
  "call e s = s\<lparr>effects := effects s @ [e]\<rparr>"

definition setTimeout :: "callback \<Rightarrow> nat \<Rightarrow> App \<Rightarrow> App" where
  "setTimeout cb ms s = s\<lparr>timers := timers s @ [(ms, cb)]\<rparr>"

section \<open>Strings\<close>

text \<open>
  \<^verbatim>\<open>String.prototype.toLowerCase\<close> on the letters A to Z, and
  \<^verbatim>\<open>String.prototype.includes\<close>. Strings are lists of characters; characters outside
  A to Z are left as they are.
\<close>

definition toLowerChar :: "char \<Rightarrow> char" where
  "toLowerChar c =
     (case map_of (zip ''ABCDEFGHIJKLMNOPQRSTUVWXYZ'' ''abcdefghijklmnopqrstuvwxyz'') c of
        Some l \<Rightarrow> l
      | None \<Rightarrow> c)"

definition toLowerCase :: "string \<Rightarrow> string" where
  "toLowerCase s = map toLowerChar s"

fun str_includes :: "string \<Rightarrow> string \<Rightarrow> bool" where
  "str_includes [] p = (p = [])"
| "str_includes (c # cs) p = (prefix p (c # cs) \<or> str_includes cs p)"

text \<open>
  The test of line 324, on the lower-cased text it is given:
  \<^verbatim>\<open>lower.includes('goodbye') || lower.includes('sleep') || lower.includes('stop session')\<close>.
\<close>

definition exitPhrase :: "string \<Rightarrow> bool" where
  "exitPhrase lower =
     (str_includes lower ''goodbye'' \<or> str_includes lower ''sleep''
      \<or> str_includes lower ''stop session'')"

section \<open>The wake-word recognizer\<close>

text \<open>
  \<^verbatim>\<open>initLocalRecognition\<close>: returns at once without a \<^verbatim>\<open>SpeechRecognition\<close> constructor;
  otherwise stops the recognizer held in \<^verbatim>\<open>localRecognitionRef\<close>, creates a new one,
  stores it and starts it.
\<close>

definition initLocalRecognition :: "App \<Rightarrow> App" where
  "initLocalRecognition s =
     (if \<not> speechRecognitionAvailable s then s
      else
        let s1 = (case localRecognitionRef s of
                    None \<Rightarrow> s
                  | Some r \<Rightarrow> call (RecognitionStop r) s);
            r' = fresh s1;
            s2 = s1\<lparr>fresh := r' + 1, localRecognitionRef := Some r'\<rparr>
        in call (RecognitionStart r') s2)"

text \<open>
  \<^verbatim>\<open>recognition.onerror\<close> of recognizer \<open>r\<close>:
  \<^verbatim>\<open>if (isHandsFree) setTimeout(() => recognition.start(), 1000)\<close>.
\<close>

definition recognition_onerror :: "nat \<Rightarrow> App \<Rightarrow> App" where
  "recognition_onerror r s =
     (if isHandsFree s then setTimeout (CallRecognitionStart r) 1000 s else s)"

section \<open>Session lifecycle\<close>

text \<open>
  \<^verbatim>\<open>stopSession\<close>: closes and forgets the session if one is held, forgets the session
  promise, calls \<^verbatim>\<open>close()\<close> on each audio context that is held (the refs keep the
  contexts), sets the status to \<^verbatim>\<open>DISCONNECTED\<close> and the face to idle, and
  re-initialises the wake-word recognizer when hands-free is on. \<^verbatim>\<open>isHandsFree\<close> is
  read from the state: the callback is taken to be the one of the current render.
\<close>

definition stopSession :: "App \<Rightarrow> App" where
  "stopSession s =
     (let s1 = (case sessionRef s of
                  None \<Rightarrow> s
                | Some n \<Rightarrow> (call (SessionClose n) s)\<lparr>sessionRef := None\<rparr>);
          s2 = s1\<lparr>sessionPromiseRef := None\<rparr>;
          s3 = (case inputAudioCtxRef s2 of
                  None \<Rightarrow> s2
                | Some c \<Rightarrow> call (AudioCtxClose c) s2);
          s4 = (case outputAudioCtxRef s3 of
                  None \<Rightarrow> s3
                | Some c \<Rightarrow> call (AudioCtxClose c) s3);
          s5 = s4\<lparr>status := DISCONNECTED, currentStatus := Idle\<rparr>
      in if isHandsFree s5 then initLocalRecognition s5 else s5)"

text \<open>
  \<^verbatim>\<open>stopSession\<close> and \<^verbatim>\<open>initLocalRecognition\<close> once more, with the one way their statements
  can raise written out: a method call on a ref that holds nothing is a \<^verbatim>\<open>TypeError\<close>.
  The tests \<^verbatim>\<open>if (sessionRef.current)\<close> and \<^verbatim>\<open>if (localRecognitionRef.current)\<close>, the
  optional calls \<^verbatim>\<open>?.close()\<close> and the early return without a \<^verbatim>\<open>SpeechRecognition\<close>
  constructor are the guards. The calls themselves are logged and do not fail:
  \<^verbatim>\<open>close()\<close> of an audio context gives a promise that \<^verbatim>\<open>stopSession\<close> drops, and closing a
  closed session or stopping a stopped recognizer raises nothing.
\<close>

datatype exn = TypeError

definition and_then :: "exn + 'a \<Rightarrow> ('a \<Rightarrow> exn + 'b) \<Rightarrow> exn + 'b" where
  "and_then r f = (case r of Inl e \<Rightarrow> Inl e | Inr x \<Rightarrow> f x)"

definition method_on :: "nat option \<Rightarrow> (nat \<Rightarrow> effect) \<Rightarrow> App \<Rightarrow> exn + App" where
  "method_on ref m s = (case ref of None \<Rightarrow> Inl TypeError | Some n \<Rightarrow> Inr (call (m n) s))"

definition optional_method_on :: "nat option \<Rightarrow> (nat \<Rightarrow> effect) \<Rightarrow> App \<Rightarrow> exn + App" where
  "optional_method_on ref m s = (case ref of None \<Rightarrow> Inr s | Some n \<Rightarrow> method_on ref m s)"

definition initLocalRecognition_raising :: "App \<Rightarrow> exn + App" where
  "initLocalRecognition_raising s =
     (if \<not> speechRecognitionAvailable s then Inr s
      else
        and_then
          (if localRecognitionRef s \<noteq> None
           then method_on (localRecognitionRef s) RecognitionStop s
           else Inr s)
          (\<lambda>s1. let r' = fresh s1;
                    s2 = s1\<lparr>fresh := r' + 1, localRecognitionRef := Some r'\<rparr>
                in method_on (localRecognitionRef s2) RecognitionStart s2))"

definition stopSession_raising :: "App \<Rightarrow> exn + App" where
  "stopSession_raising s =
     and_then
       (if sessionRef s \<noteq> None
        then and_then (method_on (sessionRef s) SessionClose s)
               (\<lambda>s'. Inr (s'\<lparr>sessionRef := None\<rparr>))
        else Inr s)
       (\<lambda>s1. let s2 = s1\<lparr>sessionPromiseRef := None\<rparr>
             in and_then (optional_method_on (inputAudioCtxRef s2) AudioCtxClose s2)
                  (\<lambda>s3. and_then (optional_method_on (outputAudioCtxRef s3) AudioCtxClose s3)
                     (\<lambda>s4. let s5 = s4\<lparr>status := DISCONNECTED, currentStatus := Idle\<rparr>
                           in if isHandsFree s5 then initLocalRecognition_raising s5
                              else Inr s5)))"

text \<open>
  \<^verbatim>\<open>startSession\<close> is asynchronous: it runs to \<^verbatim>\<open>await getUserMedia\<close>, resumes when
  the microphone is granted or refused, and resumes again when the promise of
  \<^verbatim>\<open>ai.live.connect\<close> settles. Each piece is a function; the first two also say where
  the call now stands.

  \<^verbatim>\<open>startSession\<close> is made by \<^verbatim>\<open>useCallback\<close> with \<^verbatim>\<open>status\<close> among its dependencies, so
  the \<^verbatim>\<open>status\<close> that the guard of line 206 reads is the one of the render that made the
  callback; \<^verbatim>\<open>setStatus\<close> changes the state, not that value. It is the parameter
  \<open>captured\<close>. The button calls the callback of the current render, whose captured status
  is the current one; \<^verbatim>\<open>recognition.onresult\<close> (lines 366 to 373) calls the callback
  that \<^verbatim>\<open>initLocalRecognition\<close> held when it made the recognizer.
\<close>

datatype continuation = Returned | AwaitGetUserMedia | AwaitSession nat

text \<open>The \<^verbatim>\<open>catch\<close> block of \<^verbatim>\<open>startSession\<close>.\<close>

definition startSession_catch :: "App \<Rightarrow> App" where
  "startSession_catch s = s\<lparr>status := ERROR, currentStatus := Idle\<rparr>"

text \<open>
  From the call to the first \<^verbatim>\<open>await\<close>: the guard on the captured status, then
  \<^verbatim>\<open>CONNECTING\<close> and the waking face, two new audio contexts, and the request for the
  microphone.
\<close>

definition startSession_begin :: "ConnectionStatus \<Rightarrow> App \<Rightarrow> App \<times> continuation" where
  "startSession_begin captured s =
     (if captured = CONNECTING \<or> captured = CONNECTED then (s, Returned)
      else
        let s1 = s\<lparr>status := CONNECTING, currentStatus := Waking\<rparr>;
            s2 = s1\<lparr>inputAudioCtxRef := Some (fresh s1),
                    outputAudioCtxRef := Some (fresh s1 + 1),
                    fresh := fresh s1 + 2\<rparr>
        in (call GetUserMedia s2, AwaitGetUserMedia))"

text \<open>
  After \<^verbatim>\<open>getUserMedia\<close> settles: refused, the \<^verbatim>\<open>catch\<close> block runs; granted,
  \<^verbatim>\<open>ai.live.connect\<close> is called and its promise stored in \<^verbatim>\<open>sessionPromiseRef\<close>.
\<close>

definition startSession_gotUserMedia :: "bool \<Rightarrow> App \<Rightarrow> App \<times> continuation" where
  "startSession_gotUserMedia granted s =
     (if \<not> granted then (startSession_catch s, Returned)
      else
        let p = fresh s;
            s1 = call (LiveConnect p) (s\<lparr>fresh := p + 1\<rparr>)
        in (s1\<lparr>sessionPromiseRef := Some p\<rparr>, AwaitSession p))"

text \<open>
  After the promise \<open>p\<close> settles: fulfilled, the session is stored in \<^verbatim>\<open>sessionRef\<close>;
  rejected, the \<^verbatim>\<open>catch\<close> block runs.
\<close>

definition startSession_settled :: "nat \<Rightarrow> bool \<Rightarrow> App \<Rightarrow> App" where
  "startSession_settled p fulfilled s =
     (if fulfilled then s\<lparr>sessionRef := Some p\<rparr> else startSession_catch s)"

text \<open>A call of \<^verbatim>\<open>startSession\<close> that nothing interleaves with.\<close>

definition startSession :: "ConnectionStatus \<Rightarrow> bool \<Rightarrow> bool \<Rightarrow> App \<Rightarrow> App" where
  "startSession captured granted fulfilled s =
     (case startSession_begin captured s of
        (s1, AwaitGetUserMedia) \<Rightarrow>
          (case startSession_gotUserMedia granted s1 of
             (s2, AwaitSession p) \<Rightarrow> startSession_settled p fulfilled s2
           | (s2, _) \<Rightarrow> s2)
      | (s1, _) \<Rightarrow> s1)"

text \<open>
  The channel callbacks. \<^verbatim>\<open>onopen\<close>: \<^verbatim>\<open>CONNECTED\<close>, the listening face, and the
  wake-word recognizer stopped. \<^verbatim>\<open>onerror\<close>: \<^verbatim>\<open>ERROR\<close>, then \<^verbatim>\<open>stopSession\<close>.
  \<^verbatim>\<open>onclose\<close>: \<^verbatim>\<open>DISCONNECTED\<close>, then \<^verbatim>\<open>stopSession\<close>.
\<close>

definition onopen :: "App \<Rightarrow> App" where
  "onopen s =
     (let s1 = s\<lparr>status := CONNECTED, currentStatus := Listening\<rparr>
      in case localRecognitionRef s1 of
           None \<Rightarrow> s1
         | Some r \<Rightarrow> call (RecognitionStop r) s1)"

definition onerror :: "App \<Rightarrow> App" where
  "onerror s = stopSession (s\<lparr>status := ERROR\<rparr>)"

definition onclose :: "App \<Rightarrow> App" where
  "onclose s = stopSession (s\<lparr>status := DISCONNECTED\<rparr>)"

section \<open>Inbound messages\<close>

text \<open>
  \<^verbatim>\<open>handleMessage\<close> is asynchronous too: it awaits \<^verbatim>\<open>decodeAudioData\<close>, which is not
  part of these sources. The decoder is a parameter: it gives the duration in seconds of
  the buffer decoded from a payload, or nothing when decoding throws, in which case the
  rest of \<^verbatim>\<open>handleMessage\<close> does not run. The decoding is taken to finish before the
  next event is delivered, so one message is handled in one step.
\<close>

datatype handled = Completed App | DecodeFailed App

fun state_of :: "handled \<Rightarrow> App" where
  "state_of (Completed s) = s"
| "state_of (DecodeFailed s) = s"

text \<open>\<^verbatim>\<open>Set.prototype.add\<close> and \<^verbatim>\<open>Set.prototype.delete\<close> on a set kept in insertion order.\<close>

definition set_add :: "nat \<Rightarrow> nat list \<Rightarrow> nat list" where
  "set_add x xs = (if x \<in> set xs then xs else xs @ [x])"

definition set_delete :: "nat \<Rightarrow> nat list \<Rightarrow> nat list" where
  "set_delete x xs = removeAll x xs"

text \<open>
  Lines 295 to 316, the audio branch: taken when the payload is a non-empty string and
  an output context is held. \<open>now\<close> is \<^verbatim>\<open>ctx.currentTime\<close> as read on line 299.
\<close>

definition handleMessage_audio ::
  "(string \<Rightarrow> real option) \<Rightarrow> real \<Rightarrow> LiveServerMessage \<Rightarrow> App \<Rightarrow> handled" where
  "handleMessage_audio decodeAudioData now m s =
     (case audioData m of
        None \<Rightarrow> Completed s
      | Some a \<Rightarrow>
          if a = [] \<or> outputAudioCtxRef s = None then Completed s
          else
            let s1 = s\<lparr>currentStatus := Speaking\<rparr>;
                s2 = s1\<lparr>nextStartTimeRef := max (nextStartTimeRef s1) now\<rparr>
            in (case decodeAudioData a of
                  None \<Rightarrow> DecodeFailed s2
                | Some d \<Rightarrow>
                    let src = fresh s2;
                        s3 = s2\<lparr>fresh := src + 1\<rparr>;
                        s4 = call (SourceStart src (nextStartTimeRef s3) d) s3;
                        s5 = s4\<lparr>nextStartTimeRef := nextStartTimeRef s4 + d\<rparr>
                    in Completed (s5\<lparr>sourcesRef := set_add src (sourcesRef s5)\<rparr>)))"

text \<open>
  Lines 318 to 327: the delta is appended to the input draft, and the delta \<^verbatim>\<open>text\<close> is
  what is lower-cased and searched; a match sets a timer of 3000 ms for \<^verbatim>\<open>stopSession\<close>.
\<close>

definition handleMessage_inputTranscription :: "LiveServerMessage \<Rightarrow> App \<Rightarrow> App" where
  "handleMessage_inputTranscription m s =
     (case inputTranscription m of
        None \<Rightarrow> s
      | Some text \<Rightarrow>
          let d = transcriptRef s;
              s1 = s\<lparr>transcriptRef := d\<lparr>draft_input := draft_input d @ text\<rparr>\<rparr>;
              lower = toLowerCase text
          in if exitPhrase lower then setTimeout CallStopSession 3000 s1 else s1)"

text \<open>Lines 329 to 331.\<close>

definition handleMessage_outputTranscription :: "LiveServerMessage \<Rightarrow> App \<Rightarrow> App" where
  "handleMessage_outputTranscription m s =
     (case outputTranscription m of
        None \<Rightarrow> s
      | Some text \<Rightarrow>
          let d = transcriptRef s
          in s\<lparr>transcriptRef := d\<lparr>draft_output := draft_output d @ text\<rparr>\<rparr>)"

text \<open>
  Lines 333 to 343. \<open>ts\<close> holds the two readings of \<^verbatim>\<open>Date.now()\<close>. The records are
  appended under the guard \<^verbatim>\<open>if (input || output)\<close>: a non-empty string is truthy.
\<close>

definition handleMessage_turnComplete ::
  "int \<times> int \<Rightarrow> LiveServerMessage \<Rightarrow> App \<Rightarrow> App" where
  "handleMessage_turnComplete ts m s =
     (if turnComplete m then
        let inp = draft_input (transcriptRef s);
            outp = draft_output (transcriptRef s);
            s1 = (if inp \<noteq> [] \<or> outp \<noteq> [] then
                    s\<lparr>transcriptions := transcriptions s @
                        [\<lparr>t_text = inp, t_sender = User, t_timestamp = fst ts\<rparr>,
                         \<lparr>t_text = outp, t_sender = Model, t_timestamp = snd ts\<rparr>]\<rparr>
                  else s)
        in s1\<lparr>transcriptRef := \<lparr>draft_input = [], draft_output = []\<rparr>\<rparr>
      else s)"

text \<open>Lines 345 to 350: every held source is stopped, in the order of the set.\<close>

definition handleMessage_interrupted :: "LiveServerMessage \<Rightarrow> App \<Rightarrow> App" where
  "handleMessage_interrupted m s =
     (if interrupted m then
        let s1 = s\<lparr>effects := effects s @ map SourceStop (sourcesRef s)\<rparr>;
            s2 = s1\<lparr>sourcesRef := []\<rparr>;
            s3 = s2\<lparr>nextStartTimeRef := 0\<rparr>
        in s3\<lparr>currentStatus := Listening\<rparr>
      else s)"

definition handleMessage ::
  "(string \<Rightarrow> real option) \<Rightarrow> real \<Rightarrow> int \<times> int \<Rightarrow> LiveServerMessage \<Rightarrow> App \<Rightarrow> handled" where
  "handleMessage decodeAudioData now ts m s =
     (case handleMessage_audio decodeAudioData now m s of
        DecodeFailed s' \<Rightarrow> DecodeFailed s'
      | Completed s1 \<Rightarrow>
          Completed
            (handleMessage_interrupted m
              (handleMessage_turnComplete ts m
                (handleMessage_outputTranscription m
                  (handleMessage_inputTranscription m s1)))))"

text \<open>
  \<^verbatim>\<open>source.onended\<close> of source \<open>src\<close> (lines 306 to 311): the source leaves the set, and
  an empty set brings the listening face.
\<close>

definition source_onended :: "nat \<Rightarrow> App \<Rightarrow> App" where
  "source_onended src s =
     (let s1 = s\<lparr>sourcesRef := set_delete src (sourcesRef s)\<rparr>
      in if sourcesRef s1 = [] then s1\<lparr>currentStatus := Listening\<rparr> else s1)"

text \<open>
  A run of messages, each with the clock reading and timestamps it is handled at. A
  message whose decoding failed leaves its partial changes behind, and the next one is
  handled all the same.
\<close>

fun handleMessages ::
  "(string \<Rightarrow> real option) \<Rightarrow> (real \<times> (int \<times> int) \<times> LiveServerMessage) list \<Rightarrow> App \<Rightarrow> App" where
  "handleMessages decodeAudioData [] s = s"
| "handleMessages decodeAudioData ((now, ts, m) # ms) s =
     handleMessages decodeAudioData ms (state_of (handleMessage decodeAudioData now ts m s))"

section \<open>Timers and events\<close>

fun runCallback :: "callback \<Rightarrow> App \<Rightarrow> App" where
  "runCallback CallStopSession s = stopSession s"
| "runCallback (CallRecognitionStart r) s = call (RecognitionStart r) s"

text \<open>The \<open>i\<close>-th pending timer fires: it leaves the pending list and its callback runs.\<close>

definition fireTimer :: "nat \<Rightarrow> App \<Rightarrow> App" where
  "fireTimer i s =
     (if i < length (timers s)
      then runCallback (snd (timers s ! i))
             (s\<lparr>timers := take i (timers s) @ drop (Suc i) (timers s)\<rparr>)
      else s)"

text \<open>Everything that can happen to the component, as one step function.\<close>

datatype event =
    EvStartSession ConnectionStatus bool bool
  | EvStopSession
  | EvOpen
  | EvMessage real "int \<times> int" LiveServerMessage
  | EvError
  | EvClose
  | EvSourceEnded nat
  | EvRecognitionError nat
  | EvTimer nat

fun step :: "(string \<Rightarrow> real option) \<Rightarrow> event \<Rightarrow> App \<Rightarrow> App" where
  "step dec (EvStartSession captured granted fulfilled) s =
     startSession captured granted fulfilled s"
| "step dec EvStopSession s = stopSession s"
| "step dec EvOpen s = onopen s"
| "step dec (EvMessage now ts m) s = state_of (handleMessage dec now ts m s)"
| "step dec EvError s = onerror s"
| "step dec EvClose s = onclose s"
| "step dec (EvSourceEnded src) s = source_onended src s"
| "step dec (EvRecognitionError r) s = recognition_onerror r s"
| "step dec (EvTimer i) s = fireTimer i s"

fun run :: "(string \<Rightarrow> real option) \<Rightarrow> event list \<Rightarrow> App \<Rightarrow> App" where
  "run dec [] s = s"
| "run dec (e # es) s = run dec es (step dec e s)"

section \<open>Reading the log\<close>

text \<open>The segments scheduled so far, oldest first, each with its start time and duration.\<close>

fun segment_of :: "effect \<Rightarrow> (real \<times> real) list" where
  "segment_of (SourceStart i t d) = [(t, d)]"
| "segment_of _ = []"

definition scheduled :: "App \<Rightarrow> (real \<times> real) list" where
  "scheduled s = concat (map segment_of (effects s))"

text \<open>Each segment starts no earlier than the one before it ends.\<close>

fun no_overlap :: "(real \<times> real) list \<Rightarrow> bool" where
  "no_overlap [] = True"
| "no_overlap [x] = True"
| "no_overlap (x # y # r) = (fst x + snd x \<le> fst y \<and> no_overlap (y # r))"

text \<open>The segments scheduled on the way from state \<open>s\<close> to a later state \<open>s'\<close>.\<close>

definition enqueued :: "App \<Rightarrow> App \<Rightarrow> (real \<times> real) list" where
  "enqueued s s' = drop (length (scheduled s)) (scheduled s')"

text \<open>
  Segments that start at or after \<open>t\<close>, last a non-negative time, and each start at or
  after the end of the one before.
\<close>

fun chained :: "real \<Rightarrow> (real \<times> real) list \<Rightarrow> bool" where
  "chained t [] = True"
| "chained t (x # r) = (t \<le> fst x \<and> 0 \<le> snd x \<and> chained (fst x + snd x) r)"

text \<open>How many times \<^verbatim>\<open>ai.live.connect\<close> has been called.\<close>

fun is_connect :: "effect \<Rightarrow> bool" where
  "is_connect (LiveConnect p) = True"
| "is_connect _ = False"

definition channelOpens :: "App \<Rightarrow> nat" where
  "channelOpens s = length (filter is_connect (effects s))"

text \<open>
  Two calls of \<^verbatim>\<open>startSession\<close> in rapid succession, through callbacks whose captured
  statuses are \<open>c1\<close> and \<open>c2\<close>: the second is made while the first waits for the
  microphone; then the awaited promises of the first settle, then those of the second,
  had it got that far.
\<close>

definition startSession_resume :: "bool \<Rightarrow> bool \<Rightarrow> continuation \<Rightarrow> App \<Rightarrow> App" where
  "startSession_resume granted fulfilled k s =
     (case k of
        Returned \<Rightarrow> s
      | AwaitSession p \<Rightarrow> startSession_settled p fulfilled s
      | AwaitGetUserMedia \<Rightarrow>
          (case startSession_gotUserMedia granted s of
             (s', AwaitSession p) \<Rightarrow> startSession_settled p fulfilled s'
           | (s', _) \<Rightarrow> s'))"

definition startSession_twice ::
  "ConnectionStatus \<Rightarrow> ConnectionStatus \<Rightarrow> bool \<Rightarrow> bool \<Rightarrow> App \<Rightarrow> App" where
  "startSession_twice c1 c2 granted fulfilled s =
     (case startSession_begin c1 s of
        (s1, k1) \<Rightarrow>
          (case startSession_begin c2 s1 of
             (s2, k2) \<Rightarrow>
               startSession_resume granted fulfilled k2
                 (startSession_resume granted fulfilled k1 s2)))"

text \<open>Whether the input transcription of a message makes line 324 succeed.\<close>

definition detects :: "LiveServerMessage \<Rightarrow> bool" where
  "detects m =
     (case inputTranscription m of
        None \<Rightarrow> False
      | Some text \<Rightarrow> exitPhrase (toLowerCase text))"

text \<open>
  What \<^verbatim>\<open>stopSession\<close> does before it looks at hands-free, in one update: the calls it
  makes, and the state it leaves.
\<close>

definition teardown_calls :: "App \<Rightarrow> effect list" where
  "teardown_calls s =
     (case sessionRef s of None \<Rightarrow> [] | Some n \<Rightarrow> [SessionClose n]) @
     (case inputAudioCtxRef s of None \<Rightarrow> [] | Some c \<Rightarrow> [AudioCtxClose c]) @
     (case outputAudioCtxRef s of None \<Rightarrow> [] | Some c \<Rightarrow> [AudioCtxClose c])"

definition teardown :: "App \<Rightarrow> App" where
  "teardown s =
     s\<lparr>sessionRef := None, sessionPromiseRef := None,
       effects := effects s @ teardown_calls s,
       status := DISCONNECTED, currentStatus := Idle\<rparr>"

section \<open>Concrete inputs\<close>

text \<open>
  A decoder that gives every payload half a second, a message with nothing in it, and
  the state after a session has been started from the initial state and its channel has
  opened.
\<close>

definition halfSecond :: "string \<Rightarrow> real option" where
  "halfSecond a = Some (1 / 2)"

definition emptyMsg :: LiveServerMessage where
  "emptyMsg = \<lparr>audioData = None, inputTranscription = None, outputTranscription = None,
               turnComplete = False, interrupted = False\<rparr>"

definition connectedApp :: App where
  "connectedApp = onopen (startSession DISCONNECTED True True initialApp)"

text \<open>Two audio messages, handled at clock readings 1 and 1.1.\<close>

definition twoChunks :: "(real \<times> (int \<times> int) \<times> LiveServerMessage) list" where
  "twoChunks =
     [(1, (0, 0), emptyMsg\<lparr>audioData := Some ''x''\<rparr>),
      (11 / 10, (0, 0), emptyMsg\<lparr>audioData := Some ''y''\<rparr>)]"

text \<open>The state after the two audio messages and then a message with the interrupted flag.\<close>

definition afterInterrupt :: App where
  "afterInterrupt =
     state_of (handleMessage halfSecond (6 / 5) (0, 0) (emptyMsg\<lparr>interrupted := True\<rparr>)
       (handleMessages halfSecond twoChunks connectedApp))"

text \<open>The deltas \<^verbatim>\<open>"good"\<close> then \<^verbatim>\<open>"bye"\<close>, two deltas that each hold an exit phrase, and the
  deltas \<^verbatim>\<open>"hel"\<close> then \<^verbatim>\<open>"lo goodbye"\<close>.\<close>

definition splitGoodbye :: "(real \<times> (int \<times> int) \<times> LiveServerMessage) list" where
  "splitGoodbye =
     [(0, (0, 0), emptyMsg\<lparr>inputTranscription := Some ''good''\<rparr>),
      (1 / 2, (0, 0), emptyMsg\<lparr>inputTranscription := Some ''bye''\<rparr>)]"

definition twoMatches :: "(real \<times> (int \<times> int) \<times> LiveServerMessage) list" where
  "twoMatches =
     [(0, (0, 0), emptyMsg\<lparr>inputTranscription := Some ''Goodbye''\<rparr>),
      (1 / 2, (0, 0), emptyMsg\<lparr>inputTranscription := Some '' go to sleep''\<rparr>)]"

definition helloGoodbye :: "(real \<times> (int \<times> int) \<times> LiveServerMessage) list" where
  "helloGoodbye =
     [(0, (0, 0), emptyMsg\<lparr>inputTranscription := Some ''hel''\<rparr>),
      (1 / 2, (0, 0), emptyMsg\<lparr>inputTranscription := Some ''lo goodbye''\<rparr>)]"

text \<open>A state whose draft holds \<^verbatim>\<open>"hi"\<close> as input and nothing as output.\<close>

definition draftHi :: App where
  "draftHi = connectedApp\<lparr>transcriptRef := \<lparr>draft_input = ''hi'', draft_output = []\<rparr>\<rparr>"

text \<open>The state after the first audio message of \<open>twoChunks\<close>: one source is playing.\<close>

definition playingApp :: App where
  "playingApp =
     state_of (handleMessage halfSecond 1 (0, 0) (emptyMsg\<lparr>audioData := Some ''x''\<rparr>)
       connectedApp)"

text \<open>
  A session is started and opens, the user says goodbye, the session is stopped by
  hand and a new one is started and opens, all before the delayed stop fires. Both
  starts go through a callback made while the status was \<^verbatim>\<open>DISCONNECTED\<close>.
\<close>

definition restartedApp :: App where
  "restartedApp =
     run halfSecond
       [EvStartSession DISCONNECTED True True, EvOpen,
        EvMessage 0 (0, 0) (emptyMsg\<lparr>inputTranscription := Some ''Goodbye''\<rparr>),
        EvStopSession, EvStartSession DISCONNECTED True True, EvOpen]
       initialApp"


section \<open>Auxiliary facts\<close>

lemmas model_defs =
  initialApp_def call_def setTimeout_def initLocalRecognition_def recognition_onerror_def
  stopSession_def startSession_catch_def startSession_begin_def startSession_gotUserMedia_def
  startSession_settled_def startSession_def onopen_def onerror_def onclose_def
  set_add_def set_delete_def handleMessage_audio_def handleMessage_inputTranscription_def
  handleMessage_outputTranscription_def handleMessage_turnComplete_def
  handleMessage_interrupted_def handleMessage_def source_onended_def fireTimer_def
  scheduled_def enqueued_def channelOpens_def startSession_resume_def startSession_twice_def
  detects_def toLowerCase_def toLowerChar_def exitPhrase_def
  and_then_def method_on_def optional_method_on_def initLocalRecognition_raising_def
  stopSession_raising_def halfSecond_def emptyMsg_def connectedApp_def twoChunks_def Let_def

lemma connectedApp_eq:
  "connectedApp =
     \<lparr> status = CONNECTED, isHandsFree = False, transcriptions = [],
       currentStatus = Listening, sessionRef = Some 2, sessionPromiseRef = Some 2,
       inputAudioCtxRef = Some 0, outputAudioCtxRef = Some 1, nextStartTimeRef = 0,
       sourcesRef = [], transcriptRef = \<lparr> draft_input = [], draft_output = [] \<rparr>,
       localRecognitionRef = None, speechRecognitionAvailable = True,
       effects = [GetUserMedia, LiveConnect 2], timers = [], fresh = 3 \<rparr>"
  by (simp add: model_defs)

lemma str_includes_sublist: "str_includes s p = sublist p s"
  by (induction s) (auto simp: sublist_Cons_right)

subsection \<open>Chained segments\<close>

lemma chained_mono: "chained t segs \<Longrightarrow> t' \<le> t \<Longrightarrow> chained t' segs"
  by (cases segs) auto

lemma chained_lower: "chained t segs \<Longrightarrow> x \<in> set segs \<Longrightarrow> t \<le> fst x"
proof (induction segs arbitrary: t)
  case Nil
  then show ?case by simp
next
  case (Cons y r)
  show ?case
  proof (cases "x = y")
    case True
    with Cons.prems show ?thesis by simp
  next
    case False
    with Cons.prems have "x \<in> set r" and "chained (fst y + snd y) r" by auto
    then have "fst y + snd y \<le> fst x" using Cons.IH by blast
    with Cons.prems show ?thesis by simp
  qed
qed

lemma chained_no_overlap: "chained t segs \<Longrightarrow> no_overlap segs"
  by (induction segs arbitrary: t rule: no_overlap.induct) auto

lemma chained_sorted: "chained t segs \<Longrightarrow> sorted (map fst segs)"
proof (induction segs arbitrary: t)
  case Nil
  then show ?case by simp
next
  case (Cons y r)
  then have tl: "chained (fst y + snd y) r" and d: "0 \<le> snd y" by auto
  have "fst y \<le> fst x" if "x \<in> set r" for x
    using chained_lower [OF tl that] d by linarith
  with Cons.IH [OF tl] show ?case by auto
qed

lemma chained_append:
  "chained t xs \<Longrightarrow> chained u ys \<Longrightarrow> (\<forall>x \<in> set xs. fst x + snd x \<le> u) \<Longrightarrow> t \<le> u \<Longrightarrow>
     chained t (xs @ ys)"
proof (induction xs arbitrary: t)
  case Nil
  then show ?case using chained_mono by simp
next
  case (Cons x r)
  then show ?case by simp
qed

subsection \<open>The branches of the audio block\<close>

lemma audio_skip:
  "audioData m = None \<or> audioData m = Some [] \<or> outputAudioCtxRef s = None \<Longrightarrow>
     handleMessage_audio dec now m s = Completed s"
  by (auto simp: handleMessage_audio_def split: option.splits)

lemma audio_fail:
  "audioData m = Some a \<Longrightarrow> a \<noteq> [] \<Longrightarrow> outputAudioCtxRef s \<noteq> None \<Longrightarrow> dec a = None \<Longrightarrow>
     handleMessage_audio dec now m s =
       DecodeFailed (s\<lparr>currentStatus := Speaking,
                        nextStartTimeRef := max (nextStartTimeRef s) now\<rparr>)"
  by (simp add: handleMessage_audio_def)

lemma audio_ok:
  "audioData m = Some a \<Longrightarrow> a \<noteq> [] \<Longrightarrow> outputAudioCtxRef s \<noteq> None \<Longrightarrow> dec a = Some d \<Longrightarrow>
     handleMessage_audio dec now m s =
       Completed (s\<lparr>currentStatus := Speaking,
                     nextStartTimeRef := max (nextStartTimeRef s) now + d,
                     fresh := fresh s + 1,
                     effects := effects s @
                       [SourceStart (fresh s) (max (nextStartTimeRef s) now) d],
                     sourcesRef := set_add (fresh s) (sourcesRef s)\<rparr>)"
  by (auto simp: handleMessage_audio_def Let_def call_def)

lemma audio_cases:
  obtains (skip) "audioData m = None \<or> audioData m = Some [] \<or> outputAudioCtxRef s = None"
  | (fail) a where "audioData m = Some a" "a \<noteq> []" "outputAudioCtxRef s \<noteq> None" "dec a = None"
  | (ok) a d where "audioData m = Some a" "a \<noteq> []" "outputAudioCtxRef s \<noteq> None" "dec a = Some d"
  by (cases "audioData m"; cases "dec (the (audioData m))") auto

lemma text_blocks_effects:
  "effects (handleMessage_turnComplete ts m (handleMessage_outputTranscription m
      (handleMessage_inputTranscription m s))) = effects s"
  by (simp add: handleMessage_turnComplete_def handleMessage_outputTranscription_def
      handleMessage_inputTranscription_def setTimeout_def Let_def split: option.splits)

lemma text_blocks_next:
  "nextStartTimeRef (handleMessage_turnComplete ts m (handleMessage_outputTranscription m
      (handleMessage_inputTranscription m s))) = nextStartTimeRef s"
  by (simp add: handleMessage_turnComplete_def handleMessage_outputTranscription_def
      handleMessage_inputTranscription_def setTimeout_def Let_def split: option.splits)

lemma interrupted_scheduled:
  "scheduled (handleMessage_interrupted m s) = scheduled s"
  by (simp add: handleMessage_interrupted_def scheduled_def Let_def)

lemma not_interrupted: "\<not> interrupted m \<Longrightarrow> handleMessage_interrupted m s = s"
  by (simp add: handleMessage_interrupted_def)

lemma handleMessage_scheduled_ok:
  assumes "audioData m = Some a" "a \<noteq> []" "outputAudioCtxRef s \<noteq> None" "dec a = Some d"
  shows "scheduled (state_of (handleMessage dec now ts m s)) =
           scheduled s @ [(max (nextStartTimeRef s) now, d)]"
proof -
  have "scheduled (state_of (handleMessage dec now ts m s)) =
          concat (map segment_of (effects s @
            [SourceStart (fresh s) (max (nextStartTimeRef s) now) d]))"
    using assms
    by (simp add: handleMessage_def audio_ok interrupted_scheduled)
       (simp add: scheduled_def text_blocks_effects)
  then show ?thesis by (simp add: scheduled_def)
qed

lemma handleMessage_step:
  assumes nonneg: "\<forall>a d. dec a = Some d \<longrightarrow> 0 \<le> d"
      and noint: "\<not> interrupted m"
  shows "\<exists>one. scheduled (state_of (handleMessage dec now ts m s)) = scheduled s @ one \<and>
           chained (nextStartTimeRef s) one \<and>
           (\<forall>x \<in> set one.
              fst x + snd x \<le> nextStartTimeRef (state_of (handleMessage dec now ts m s))) \<and>
           nextStartTimeRef s \<le> nextStartTimeRef (state_of (handleMessage dec now ts m s))"
proof (cases rule: audio_cases [where m = m and s = s and dec = dec])
  case skip
  then show ?thesis
    using noint
    by (simp add: handleMessage_def audio_skip not_interrupted text_blocks_next
        scheduled_def text_blocks_effects)
next
  case (fail a)
  then show ?thesis
    by (simp add: handleMessage_def audio_fail scheduled_def)
next
  case (ok a d)
  have "0 \<le> d" using nonneg ok(4) by blast
  then show ?thesis
    using noint ok
    by (simp add: handleMessage_def audio_ok not_interrupted text_blocks_next
        scheduled_def text_blocks_effects)
qed

lemma handleMessages_chained:
  assumes nonneg: "\<forall>a d. dec a = Some d \<longrightarrow> 0 \<le> d"
  shows "\<forall>e \<in> set ms. \<not> interrupted (snd (snd e)) \<Longrightarrow>
         \<exists>new. scheduled (handleMessages dec ms s) = scheduled s @ new \<and>
               chained (nextStartTimeRef s) new"
proof (induction ms arbitrary: s)
  case Nil
  then show ?case by simp
next
  case (Cons e ms)
  obtain now ts m where e: "e = (now, ts, m)" by (cases e) auto
  let ?s1 = "state_of (handleMessage dec now ts m s)"
  have "\<not> interrupted m" using Cons.prems e by simp
  from handleMessage_step [OF nonneg this, of now ts s]
  obtain one where one: "scheduled ?s1 = scheduled s @ one"
      "chained (nextStartTimeRef s) one"
      "\<forall>x \<in> set one. fst x + snd x \<le> nextStartTimeRef ?s1"
      "nextStartTimeRef s \<le> nextStartTimeRef ?s1"
    by blast
  have "\<exists>new. scheduled (handleMessages dec ms ?s1) = scheduled ?s1 @ new \<and>
               chained (nextStartTimeRef ?s1) new"
    using Cons.IH [of ?s1] Cons.prems by simp
  then obtain new where new: "scheduled (handleMessages dec ms ?s1) = scheduled ?s1 @ new"
      "chained (nextStartTimeRef ?s1) new"
    by blast
  have "chained (nextStartTimeRef s) (one @ new)"
    using chained_append [OF one(2) new(2) one(3) one(4)] .
  then show ?case
    using one(1) new(1) e by simp
qed

lemma audio_frame:
  "transcriptRef (state_of (handleMessage_audio dec now m s)) = transcriptRef s"
  "transcriptions (state_of (handleMessage_audio dec now m s)) = transcriptions s"
  "timers (state_of (handleMessage_audio dec now m s)) = timers s"
  "outputAudioCtxRef (state_of (handleMessage_audio dec now m s)) = outputAudioCtxRef s"
  "set (sourcesRef s) \<subseteq> set (sourcesRef (state_of (handleMessage_audio dec now m s)))"
  "prefix (effects s) (effects (state_of (handleMessage_audio dec now m s)))"
  by (cases rule: audio_cases [where m = m and s = s and dec = dec];
      auto simp: audio_skip audio_fail audio_ok set_add_def)+

lemma text_blocks_sources:
  "sourcesRef (handleMessage_turnComplete ts m (handleMessage_outputTranscription m
      (handleMessage_inputTranscription m s))) = sourcesRef s"
  by (simp add: handleMessage_turnComplete_def handleMessage_outputTranscription_def
      handleMessage_inputTranscription_def setTimeout_def Let_def split: option.splits)

lemma text_blocks_ctx:
  "outputAudioCtxRef (handleMessage_turnComplete ts m (handleMessage_outputTranscription m
      (handleMessage_inputTranscription m s))) = outputAudioCtxRef s"
  by (simp add: handleMessage_turnComplete_def handleMessage_outputTranscription_def
      handleMessage_inputTranscription_def setTimeout_def Let_def split: option.splits)

lemma handleMessage_Completed:
  "handleMessage dec now ts m s = Completed s' \<Longrightarrow>
     \<exists>sa. handleMessage_audio dec now m s = Completed sa \<and>
       s' = handleMessage_interrupted m (handleMessage_turnComplete ts m
              (handleMessage_outputTranscription m (handleMessage_inputTranscription m sa)))"
  by (auto simp: handleMessage_def split: handled.splits)

lemma afterInterrupt_eq:
  "handleMessage halfSecond (6 / 5) (0, 0) (emptyMsg\<lparr>interrupted := True\<rparr>)
       (handleMessages halfSecond twoChunks connectedApp) = Completed afterInterrupt"
  by (simp add: afterInterrupt_def handleMessage_def handleMessage_audio_def emptyMsg_def)

subsection \<open>The text blocks\<close>

lemma text_blocks_timers:
  "timers (handleMessage_interrupted m (handleMessage_turnComplete ts m
     (handleMessage_outputTranscription m (handleMessage_inputTranscription m s)))) =
   timers s @ (if detects m then [(3000, CallStopSession)] else [])"
  by (simp add: handleMessage_interrupted_def handleMessage_turnComplete_def
      handleMessage_outputTranscription_def handleMessage_inputTranscription_def
      setTimeout_def detects_def Let_def split: option.splits)

lemma handleMessage_timers:
  "timers (state_of (handleMessage dec now ts m s)) =
     timers s @ (case handleMessage dec now ts m s of
                   Completed s' \<Rightarrow> if detects m then [(3000, CallStopSession)] else []
                 | DecodeFailed s' \<Rightarrow> [])"
proof (cases "handleMessage_audio dec now m s")
  case (Completed sa)
  then have "timers sa = timers s"
    using audio_frame(3) [of dec now m s] by simp
  with Completed show ?thesis
    by (simp add: handleMessage_def text_blocks_timers)
next
  case (DecodeFailed sa)
  then have "timers sa = timers s"
    using audio_frame(3) [of dec now m s] by simp
  with DecodeFailed show ?thesis
    by (simp add: handleMessage_def)
qed

lemma text_blocks_transcript:
  "turnComplete m \<Longrightarrow>
   transcriptRef (handleMessage_interrupted m (handleMessage_turnComplete ts m
     (handleMessage_outputTranscription m (handleMessage_inputTranscription m s)))) =
     \<lparr>draft_input = [], draft_output = []\<rparr>"
  by (simp add: handleMessage_interrupted_def handleMessage_turnComplete_def Let_def)

lemma text_blocks_transcriptions:
  "turnComplete m \<Longrightarrow>
   transcriptions (handleMessage_interrupted m (handleMessage_turnComplete ts m
     (handleMessage_outputTranscription m (handleMessage_inputTranscription m s)))) =
   transcriptions s @
     (let inp = draft_input (transcriptRef s) @
                  (case inputTranscription m of None \<Rightarrow> [] | Some text \<Rightarrow> text);
          outp = draft_output (transcriptRef s) @
                  (case outputTranscription m of None \<Rightarrow> [] | Some text \<Rightarrow> text)
      in if inp = [] \<and> outp = [] then []
         else [\<lparr>t_text = inp, t_sender = User, t_timestamp = fst ts\<rparr>,
               \<lparr>t_text = outp, t_sender = Model, t_timestamp = snd ts\<rparr>])"
  by (simp add: handleMessage_interrupted_def handleMessage_turnComplete_def
      handleMessage_outputTranscription_def handleMessage_inputTranscription_def
      setTimeout_def Let_def split: option.splits)

lemma exitPhrase_sublist:
  "exitPhrase lower =
     (sublist ''goodbye'' lower \<or> sublist ''sleep'' lower \<or> sublist ''stop session'' lower)"
  by (simp add: exitPhrase_def str_includes_sublist)

subsection \<open>Session lifecycle\<close>

lemma startSession_begin_guarded:
  "captured = CONNECTING \<or> captured = CONNECTED \<Longrightarrow>
     startSession_begin captured s = (s, Returned)"
  by (auto simp: startSession_begin_def)

lemma startSession_begin_fresh:
  "captured \<noteq> CONNECTING \<Longrightarrow> captured \<noteq> CONNECTED \<Longrightarrow>
     startSession_begin captured s =
       (s\<lparr>status := CONNECTING, currentStatus := Waking,
          inputAudioCtxRef := Some (fresh s), outputAudioCtxRef := Some (fresh s + 1),
          fresh := fresh s + 2, effects := effects s @ [GetUserMedia]\<rparr>, AwaitGetUserMedia)"
  by (simp add: startSession_begin_def call_def Let_def)

lemma stopSession_fields:
  "status (stopSession s) = DISCONNECTED"
  "currentStatus (stopSession s) = Idle"
  "sessionRef (stopSession s) = None"
  "sessionPromiseRef (stopSession s) = None"
  "timers (stopSession s) = timers s"
  "sourcesRef (stopSession s) = sourcesRef s"
  "isHandsFree (stopSession s) = isHandsFree s"
  "speechRecognitionAvailable (stopSession s) = speechRecognitionAvailable s"
  "inputAudioCtxRef (stopSession s) = inputAudioCtxRef s"
  "outputAudioCtxRef (stopSession s) = outputAudioCtxRef s"
  by (simp_all add: stopSession_def initLocalRecognition_def call_def Let_def
      split: option.splits)

lemma stopSession_handsFree_off:
  "\<not> isHandsFree s \<Longrightarrow> stopSession s = teardown s"
  by (cases "sessionRef s"; cases "inputAudioCtxRef s"; cases "outputAudioCtxRef s")
     (simp_all add: stopSession_def call_def Let_def teardown_calls_def teardown_def)

lemma stopSession_handsFree_on:
  "isHandsFree s \<Longrightarrow> stopSession s = initLocalRecognition (teardown s)"
  by (cases "sessionRef s"; cases "inputAudioCtxRef s"; cases "outputAudioCtxRef s";
      cases "localRecognitionRef s")
     (simp_all add: stopSession_def call_def Let_def teardown_calls_def teardown_def
        initLocalRecognition_def)

lemma teardown_twice:
  "teardown (teardown s) =
     (teardown s)\<lparr>effects := effects (teardown s) @
        (case inputAudioCtxRef s of None \<Rightarrow> [] | Some c \<Rightarrow> [AudioCtxClose c]) @
        (case outputAudioCtxRef s of None \<Rightarrow> [] | Some c \<Rightarrow> [AudioCtxClose c])\<rparr>"
  by (simp add: teardown_def teardown_calls_def)

lemma stopSession_twice_handsFree_off:
  "\<not> isHandsFree s \<Longrightarrow>
     stopSession (stopSession s) =
       (stopSession s)\<lparr>effects := effects (stopSession s) @
          (case inputAudioCtxRef s of None \<Rightarrow> [] | Some c \<Rightarrow> [AudioCtxClose c]) @
          (case outputAudioCtxRef s of None \<Rightarrow> [] | Some c \<Rightarrow> [AudioCtxClose c])\<rparr>"
proof -
  assume off: "\<not> isHandsFree s"
  then have "\<not> isHandsFree (teardown s)"
    by (simp add: teardown_def)
  then show ?thesis
    using off by (simp add: stopSession_handsFree_off teardown_twice)
qed





lemma stopSession_twice_handsFree_on:
  assumes "isHandsFree s" "speechRecognitionAvailable s"
  shows "localRecognitionRef (stopSession s) = Some (fresh s) \<and>
     localRecognitionRef (stopSession (stopSession s)) = Some (fresh s + 1)"
proof -
  have init: "localRecognitionRef (initLocalRecognition u) = Some (fresh u) \<and>
      fresh (initLocalRecognition u) = fresh u + 1"
    if "speechRecognitionAvailable u" for u
    using that
    by (cases "localRecognitionRef u") (simp_all add: initLocalRecognition_def call_def Let_def)
  have t: "fresh (teardown u) = fresh u"
    "speechRecognitionAvailable (teardown u) = speechRecognitionAvailable u" for u
    by (simp_all add: teardown_def)
  have 1: "stopSession s = initLocalRecognition (teardown s)"
    using assms(1) by (rule stopSession_handsFree_on)
  have a: "localRecognitionRef (stopSession s) = Some (fresh s)"
    and f: "fresh (stopSession s) = fresh s + 1"
    using init [of "teardown s"] assms(2) by (simp_all add: 1 t)
  have hf: "isHandsFree (stopSession s)" and av: "speechRecognitionAvailable (stopSession s)"
    using assms by (simp_all add: stopSession_fields)
  have "localRecognitionRef (stopSession (stopSession s)) = Some (fresh (stopSession s))"
    using init [of "teardown (stopSession s)"] av
    by (simp add: stopSession_handsFree_on [OF hf] t)
  with a f show ?thesis by simp
qed

lemma stopSession_noop:
  "status s = DISCONNECTED \<Longrightarrow> currentStatus s = Idle \<Longrightarrow> sessionRef s = None \<Longrightarrow>
   sessionPromiseRef s = None \<Longrightarrow> inputAudioCtxRef s = None \<Longrightarrow>
   outputAudioCtxRef s = None \<Longrightarrow> \<not> isHandsFree s \<Longrightarrow> stopSession s = s"
  by (simp add: stopSession_def Let_def)








subsection \<open>What each operation does to the pending timers\<close>

lemma startSession_timers: "timers (startSession captured granted fulfilled s) = timers s"
  by (simp add: startSession_def startSession_begin_def startSession_gotUserMedia_def
      startSession_settled_def startSession_catch_def call_def Let_def)

lemma onopen_timers: "timers (onopen s) = timers s"
  by (simp add: onopen_def call_def Let_def split: option.splits)

lemma source_onended_timers: "timers (source_onended src s) = timers s"
  by (simp add: source_onended_def Let_def)

lemma recognition_onerror_timers:
  "prefix (timers s) (timers (recognition_onerror r s))"
  by (simp add: recognition_onerror_def setTimeout_def)

lemma handleMessage_timers_prefix:
  "prefix (timers s) (timers (state_of (handleMessage dec now ts m s)))"
  by (simp add: handleMessage_timers)

lemma runCallback_timers: "timers (runCallback cb s) = timers s"
  by (cases cb) (simp_all add: stopSession_fields call_def)

lemma startSession_refused:
  "captured \<noteq> CONNECTING \<Longrightarrow> captured \<noteq> CONNECTED \<Longrightarrow>
     startSession captured False fulfilled s =
       (fst (startSession_begin captured s))\<lparr>status := ERROR, currentStatus := Idle\<rparr>"
  by (simp add: startSession_def startSession_begin_fresh startSession_gotUserMedia_def
      startSession_catch_def)

lemma startSession_rejected:
  "captured \<noteq> CONNECTING \<Longrightarrow> captured \<noteq> CONNECTED \<Longrightarrow>
     status (startSession captured True False s) = ERROR \<and>
     currentStatus (startSession captured True False s) = Idle"
  by (simp add: startSession_def startSession_begin_fresh startSession_gotUserMedia_def
      startSession_settled_def startSession_catch_def call_def Let_def)

section \<open>Playback scheduler\<close>

text \<open>
  C1. For every run of messages none of which carries the interrupted flag, handled
  from any state with a decoder that gives no negative duration, the segments the run
  schedules have non-decreasing start times and each starts no earlier than the start of
  the one before it plus that one's duration. A message whose audio is enqueued from
  state \<open>s\<close> at clock reading \<open>now\<close> schedules exactly one segment, at the larger of
  \<^verbatim>\<open>nextStartTimeRef\<close> and \<open>now\<close>.
\<close>

theorem enqueue_starts_chained:
  assumes "\<forall>a d. decodeAudioData a = Some d \<longrightarrow> 0 \<le> d"
      and "\<forall>e \<in> set ms. \<not> interrupted (snd (snd e))"
  shows "no_overlap (enqueued s (handleMessages decodeAudioData ms s)) \<and>
         sorted (map fst (enqueued s (handleMessages decodeAudioData ms s))) \<and>
         (\<forall>now ts m a d.
            audioData m = Some a \<and> a \<noteq> [] \<and> outputAudioCtxRef s \<noteq> None \<and>
            decodeAudioData a = Some d \<longrightarrow>
            enqueued s (state_of (handleMessage decodeAudioData now ts m s)) =
              [(max (nextStartTimeRef s) now, d)])"
proof -
  obtain new where new: "scheduled (handleMessages decodeAudioData ms s) = scheduled s @ new"
      "chained (nextStartTimeRef s) new"
    using handleMessages_chained [OF assms] by blast
  have run: "enqueued s (handleMessages decodeAudioData ms s) = new"
    by (simp add: enqueued_def new(1))
  have one: "enqueued s (state_of (handleMessage decodeAudioData now ts m s)) =
               [(max (nextStartTimeRef s) now, d)]"
    if "audioData m = Some a" "a \<noteq> []" "outputAudioCtxRef s \<noteq> None"
       "decodeAudioData a = Some d" for now ts m a d
    using that by (simp add: enqueued_def handleMessage_scheduled_ok)
  show ?thesis
    using chained_no_overlap [OF new(2)] chained_sorted [OF new(2)] one
    by (simp add: run)
qed

theorem enqueue_starts_chained_witness:
  "enqueued connectedApp (handleMessages halfSecond twoChunks connectedApp) =
     [(1, 1 / 2), (3 / 2, 1 / 2)] \<and>
   no_overlap (enqueued connectedApp (handleMessages halfSecond twoChunks connectedApp)) \<and>
   sorted (map fst (enqueued connectedApp (handleMessages halfSecond twoChunks connectedApp))) \<and>
   enqueued connectedApp
     (state_of (handleMessage halfSecond 1 (0, 0) (emptyMsg\<lparr>audioData := Some ''x''\<rparr>)
        connectedApp)) = [(max (nextStartTimeRef connectedApp) 1, 1 / 2)]"
proof -
  have h1: "\<forall>a d. halfSecond a = Some d \<longrightarrow> 0 \<le> d"
    by (simp add: halfSecond_def)
  have h2: "\<forall>e \<in> set twoChunks. \<not> interrupted (snd (snd e))"
    by (simp add: twoChunks_def emptyMsg_def)
  have ev: "enqueued connectedApp (handleMessages halfSecond twoChunks connectedApp) =
     [(1, 1 / 2), (3 / 2, 1 / 2)]"
    by (simp add: connectedApp_eq) (simp add: model_defs)
  have c: "outputAudioCtxRef connectedApp \<noteq> None"
    by (simp add: connectedApp_eq)
  note T = enqueue_starts_chained [OF h1 h2, of connectedApp]
  from T have a: "no_overlap (enqueued connectedApp (handleMessages halfSecond twoChunks connectedApp))"
    and a': "sorted (map fst (enqueued connectedApp (handleMessages halfSecond twoChunks connectedApp)))"
    by blast+
  from T have b: "audioData m = Some a \<and> a \<noteq> [] \<and> outputAudioCtxRef connectedApp \<noteq> None \<and>
            halfSecond a = Some d \<longrightarrow>
            enqueued connectedApp (state_of (handleMessage halfSecond now ts m connectedApp)) =
              [(max (nextStartTimeRef connectedApp) now, d)]" for now ts m a d
    by blast
  have one: "enqueued connectedApp
     (state_of (handleMessage halfSecond 1 (0, 0) (emptyMsg\<lparr>audioData := Some ''x''\<rparr>)
        connectedApp)) = [(max (nextStartTimeRef connectedApp) 1, 1 / 2)]"
    using b [of "emptyMsg\<lparr>audioData := Some ''x''\<rparr>" "''x''" "1 / 2" 1 "(0, 0)"] c
    by (simp add: emptyMsg_def halfSecond_def)
  show ?thesis
    using ev a a' one by blast
qed

text \<open>
  C2. When a message with the interrupted flag has been handled, every source held
  before has been stopped, the set of sources is empty and \<^verbatim>\<open>nextStartTimeRef\<close> is 0; a
  segment enqueued next, at a clock reading \<open>now2\<close> that is not negative, is scheduled
  at \<open>now2\<close>.
\<close>

theorem interrupted_resets_schedule:
  assumes "handleMessage decodeAudioData now1 ts1 m1 s = Completed s1"
      and "interrupted m1"
      and "audioData m2 = Some a" and "a \<noteq> []" and "outputAudioCtxRef s1 \<noteq> None"
      and "decodeAudioData a = Some d"
      and "0 \<le> now2"
  shows "nextStartTimeRef s1 = 0 \<and> sourcesRef s1 = [] \<and>
         SourceStop ` set (sourcesRef s) \<subseteq> set (effects s1) \<and>
         enqueued s1 (state_of (handleMessage decodeAudioData now2 ts2 m2 s1)) = [(now2, d)]"
proof -
  obtain sa where sa: "handleMessage_audio decodeAudioData now1 m1 s = Completed sa"
    and s1: "s1 = handleMessage_interrupted m1 (handleMessage_turnComplete ts1 m1
              (handleMessage_outputTranscription m1 (handleMessage_inputTranscription m1 sa)))"
    using handleMessage_Completed [OF assms(1)] by blast
  let ?r = "handleMessage_turnComplete ts1 m1
              (handleMessage_outputTranscription m1 (handleMessage_inputTranscription m1 sa))"
  have next0: "nextStartTimeRef s1 = 0" and src0: "sourcesRef s1 = []"
    using assms(2) by (simp_all add: s1 handleMessage_interrupted_def)
  have "set (sourcesRef s) \<subseteq> set (sourcesRef sa)"
    using audio_frame(5) [of s decodeAudioData now1 m1] sa by simp
  then have "set (sourcesRef s) \<subseteq> set (sourcesRef ?r)"
    by (simp add: text_blocks_sources)
  moreover have "SourceStop ` set (sourcesRef ?r) \<subseteq> set (effects s1)"
    using assms(2) by (simp add: s1 handleMessage_interrupted_def)
  ultimately have stops: "SourceStop ` set (sourcesRef s) \<subseteq> set (effects s1)"
    by blast
  have "scheduled (state_of (handleMessage decodeAudioData now2 ts2 m2 s1)) =
          scheduled s1 @ [(max (nextStartTimeRef s1) now2, d)]"
    using assms(3-6) by (rule handleMessage_scheduled_ok)
  then have "enqueued s1 (state_of (handleMessage decodeAudioData now2 ts2 m2 s1)) = [(now2, d)]"
    using assms(7) by (simp add: enqueued_def next0)
  with next0 src0 stops show ?thesis by simp
qed

theorem interrupted_resets_schedule_witness:
  "nextStartTimeRef (handleMessages halfSecond twoChunks connectedApp) = 2 \<and>
   sourcesRef (handleMessages halfSecond twoChunks connectedApp) = [3, 4] \<and>
   nextStartTimeRef afterInterrupt = 0 \<and>
   sourcesRef afterInterrupt = [] \<and>
   SourceStop ` set [3, 4] \<subseteq> set (effects afterInterrupt) \<and>
   enqueued afterInterrupt
     (state_of (handleMessage halfSecond (13 / 10) (0, 0) (emptyMsg\<lparr>audioData := Some ''z''\<rparr>)
        afterInterrupt)) = [(13 / 10, 1 / 2)]"
proof -
  have pre: "nextStartTimeRef (handleMessages halfSecond twoChunks connectedApp) = 2 \<and>
    sourcesRef (handleMessages halfSecond twoChunks connectedApp) = [3, 4]"
    by (simp add: connectedApp_eq) (simp add: model_defs)
  have ctx: "outputAudioCtxRef afterInterrupt \<noteq> None"
    by (simp add: afterInterrupt_def connectedApp_eq) (simp add: model_defs)
  have "nextStartTimeRef afterInterrupt = 0 \<and> sourcesRef afterInterrupt = [] \<and>
         SourceStop ` set (sourcesRef (handleMessages halfSecond twoChunks connectedApp))
           \<subseteq> set (effects afterInterrupt) \<and>
         enqueued afterInterrupt
           (state_of (handleMessage halfSecond (13 / 10) (0, 0)
              (emptyMsg\<lparr>audioData := Some ''z''\<rparr>) afterInterrupt)) = [(13 / 10, 1 / 2)]"
    by (rule interrupted_resets_schedule [where a = "''z''", OF afterInterrupt_eq _ _ _ ctx])
       (simp_all add: emptyMsg_def halfSecond_def)
  with pre show ?thesis by simp
qed

section \<open>Transcript aggregator and command detector\<close>

text \<open>
  C3, as the code has it. When a message with the turn-complete flag is handled to its
  end, the draft is reset to two empty strings; if the accumulated input or the
  accumulated output is non-empty, exactly two records are appended to the history, the
  first from the user with the input text and the second from the model with the output
  text (one of the two may be empty); if both are empty, no record is appended.
\<close>

theorem turnComplete_emits_pair_unless_both_empty:
  assumes "handleMessage decodeAudioData now ts m s = Completed s'"
      and "turnComplete m"
  shows "transcriptRef s' = \<lparr>draft_input = [], draft_output = []\<rparr> \<and>
         transcriptions s' = transcriptions s @
           (let inp = draft_input (transcriptRef s) @
                        (case inputTranscription m of None \<Rightarrow> [] | Some text \<Rightarrow> text);
                outp = draft_output (transcriptRef s) @
                        (case outputTranscription m of None \<Rightarrow> [] | Some text \<Rightarrow> text)
            in if inp = [] \<and> outp = [] then []
               else [\<lparr>t_text = inp, t_sender = User, t_timestamp = fst ts\<rparr>,
                     \<lparr>t_text = outp, t_sender = Model, t_timestamp = snd ts\<rparr>])"
proof -
  obtain sa where sa: "handleMessage_audio decodeAudioData now m s = Completed sa"
    and s': "s' = handleMessage_interrupted m (handleMessage_turnComplete ts m
              (handleMessage_outputTranscription m (handleMessage_inputTranscription m sa)))"
    using handleMessage_Completed [OF assms(1)] by blast
  have "transcriptRef sa = transcriptRef s" and "transcriptions sa = transcriptions s"
    using audio_frame(1,2) [of decodeAudioData now m s] sa by simp_all
  then show ?thesis
    using assms(2) text_blocks_transcript [of m ts sa] text_blocks_transcriptions [of m ts sa]
    by (simp add: s')
qed

theorem turnComplete_emits_pair_unless_both_empty_witness:
  "transcriptRef (state_of (handleMessage halfSecond 0 (7, 8) (emptyMsg\<lparr>turnComplete := True\<rparr>)
      draftHi)) = \<lparr>draft_input = [], draft_output = []\<rparr> \<and>
   transcriptions (state_of (handleMessage halfSecond 0 (7, 8) (emptyMsg\<lparr>turnComplete := True\<rparr>)
      draftHi)) =
     [\<lparr>t_text = ''hi'', t_sender = User, t_timestamp = 7\<rparr>,
      \<lparr>t_text = [], t_sender = Model, t_timestamp = 8\<rparr>]"
proof -
  have c: "handleMessage halfSecond 0 (7, 8) (emptyMsg\<lparr>turnComplete := True\<rparr>) draftHi =
      Completed (state_of (handleMessage halfSecond 0 (7, 8) (emptyMsg\<lparr>turnComplete := True\<rparr>)
        draftHi))"
    by (simp add: handleMessage_def handleMessage_audio_def emptyMsg_def)
  have t: "turnComplete (emptyMsg\<lparr>turnComplete := True\<rparr>)"
    by simp
  show ?thesis
    using turnComplete_emits_pair_unless_both_empty [OF c t]
    by (simp add: draftHi_def connectedApp_eq emptyMsg_def)
qed

theorem turnComplete_empty_draft_counterexample:
  "transcriptRef connectedApp = \<lparr>draft_input = [], draft_output = []\<rparr> \<and>
   transcriptions connectedApp = [] \<and>
   handleMessage halfSecond 0 (7, 8) (emptyMsg\<lparr>turnComplete := True\<rparr>) connectedApp =
     Completed connectedApp"
  by (simp add: connectedApp_eq) (simp add: model_defs)

text \<open>
  C4, as the code has it. On every input-transcript delta handled to its end, what is
  lower-cased and searched for \<^verbatim>\<open>"goodbye"\<close>, \<^verbatim>\<open>"sleep"\<close> and \<^verbatim>\<open>"stop session"\<close> is the newly
  arrived delta alone, whatever the draft has accumulated: a delayed stop is set exactly
  when the lower-cased delta contains one of the three as a contiguous substring.
\<close>

theorem command_detector_scans_delta:
  assumes "handleMessage decodeAudioData now ts m s = Completed s'"
  shows "timers s' = timers s @
           (case inputTranscription m of
              None \<Rightarrow> []
            | Some text \<Rightarrow>
                if sublist ''goodbye'' (toLowerCase text) \<or> sublist ''sleep'' (toLowerCase text)
                   \<or> sublist ''stop session'' (toLowerCase text)
                then [(3000, CallStopSession)] else [])"
  using handleMessage_timers [of decodeAudioData now ts m s] assms
  by (simp add: detects_def exitPhrase_sublist split: option.splits)

theorem command_detector_scans_delta_witness:
  "timers (state_of (handleMessage halfSecond 0 (0, 0)
      (emptyMsg\<lparr>inputTranscription := Some ''lo GoodBye''\<rparr>)
      (connectedApp\<lparr>transcriptRef := \<lparr>draft_input = ''hel'', draft_output = []\<rparr>\<rparr>))) =
     [(3000, CallStopSession)]"
proof -
  let ?s = "connectedApp\<lparr>transcriptRef := \<lparr>draft_input = ''hel'', draft_output = []\<rparr>\<rparr>"
  let ?m = "emptyMsg\<lparr>inputTranscription := Some ''lo GoodBye''\<rparr>"
  have c: "handleMessage halfSecond 0 (0, 0) ?m ?s =
      Completed (state_of (handleMessage halfSecond 0 (0, 0) ?m ?s))"
    by (simp add: handleMessage_def handleMessage_audio_def emptyMsg_def)
  have l: "toLowerCase ''lo GoodBye'' = ''lo goodbye''"
    by (simp add: toLowerCase_def toLowerChar_def)
  have "sublist ''goodbye'' ''lo goodbye''"
    by (simp add: str_includes_sublist [symmetric])
  then show ?thesis
    using command_detector_scans_delta [OF c] l
    by (simp add: connectedApp_eq)
qed

theorem split_phrase_undetected_counterexample:
  "draft_input (transcriptRef (handleMessages halfSecond splitGoodbye connectedApp)) =
     ''goodbye'' \<and>
   timers (handleMessages halfSecond splitGoodbye connectedApp) = []"
  by (simp add: connectedApp_eq) (simp add: model_defs splitGoodbye_def)

text \<open>
  C5, as the code has it. Every input-transcript delta that holds an exit phrase sets
  its own 3-second delayed stop, whatever is pending already: after a run of messages
  whose audio payloads all decode, the pending timers are those from before followed by
  one delayed stop for each matching delta of the run.
\<close>

theorem every_match_sets_a_delayed_stop:
  assumes "\<forall>e \<in> set ms. \<forall>a. audioData (snd (snd e)) = Some a \<longrightarrow> decodeAudioData a \<noteq> None"
  shows "timers (handleMessages decodeAudioData ms s) =
           timers s @ replicate (length (filter (\<lambda>e. detects (snd (snd e))) ms))
                        (3000, CallStopSession)"
  using assms
proof (induction ms arbitrary: s)
  case Nil
  then show ?case by simp
next
  case (Cons e ms)
  obtain now ts m where e: "e = (now, ts, m)" by (cases e) auto
  let ?s1 = "state_of (handleMessage decodeAudioData now ts m s)"
  have dec: "\<forall>a. audioData m = Some a \<longrightarrow> decodeAudioData a \<noteq> None"
    using Cons.prems e by simp
  have "\<exists>sa. handleMessage_audio decodeAudioData now m s = Completed sa"
  proof (cases rule: audio_cases [where m = m and s = s and dec = decodeAudioData])
    case skip
    then show ?thesis by (simp add: audio_skip)
  next
    case (fail a)
    with dec show ?thesis by simp
  next
    case (ok a d)
    then show ?thesis by (simp add: audio_ok)
  qed
  then have "\<exists>s'. handleMessage decodeAudioData now ts m s = Completed s'"
    by (auto simp: handleMessage_def)
  then have one: "timers ?s1 = timers s @ (if detects m then [(3000, CallStopSession)] else [])"
    using handleMessage_timers [of decodeAudioData now ts m s] by auto
  have "timers (handleMessages decodeAudioData ms ?s1) =
          timers ?s1 @ replicate (length (filter (\<lambda>e. detects (snd (snd e))) ms))
                        (3000, CallStopSession)"
    using Cons.IH [of ?s1] Cons.prems by simp
  with one show ?case
    by (simp add: e)
qed

theorem every_match_sets_a_delayed_stop_witness:
  "timers (handleMessages halfSecond helloGoodbye connectedApp) = [(3000, CallStopSession)]"
proof -
  have h: "\<forall>e \<in> set helloGoodbye. \<forall>a. audioData (snd (snd e)) = Some a \<longrightarrow> halfSecond a \<noteq> None"
    by (simp add: halfSecond_def)
  have n: "length (filter (\<lambda>e. detects (snd (snd e))) helloGoodbye) = 1"
    by (simp add: helloGoodbye_def detects_def emptyMsg_def toLowerCase_def toLowerChar_def
        exitPhrase_def)
  show ?thesis
    using every_match_sets_a_delayed_stop [OF h, of connectedApp]
    by (simp add: n connectedApp_eq)
qed

theorem two_delayed_stops_pending_counterexample:
  "timers (handleMessages halfSecond twoMatches connectedApp) =
     [(3000, CallStopSession), (3000, CallStopSession)]"
  by (simp add: connectedApp_eq) (simp add: model_defs twoMatches_def)

section \<open>Session state machine\<close>

text \<open>
  C6. The guard of line 206 is meant to make a call of \<^verbatim>\<open>startSession\<close> a no-op while a
  session is being opened, and it does so for a callback whose captured status is
  \<^verbatim>\<open>CONNECTING\<close> or \<^verbatim>\<open>CONNECTED\<close>. Two calls in rapid succession through a callback made
  while the status was \<^verbatim>\<open>DISCONNECTED\<close>, as \<^verbatim>\<open>recognition.onresult\<close> makes them, both pass
  the guard although the first has set the status to \<^verbatim>\<open>CONNECTING\<close>: \<^verbatim>\<open>ai.live.connect\<close> is
  called twice. Had the second call read the status the first one set, it would have
  been called once.
\<close>

theorem stale_startSession_opens_second_channel:
  "status (fst (startSession_begin DISCONNECTED initialApp)) = CONNECTING \<and>
   snd (startSession_begin DISCONNECTED (fst (startSession_begin DISCONNECTED initialApp))) =
     AwaitGetUserMedia \<and>
   channelOpens (startSession_twice DISCONNECTED DISCONNECTED True True initialApp) = 2 \<and>
   snd (startSession_begin CONNECTING (fst (startSession_begin DISCONNECTED initialApp))) =
     Returned \<and>
   channelOpens (startSession_twice DISCONNECTED CONNECTING True True initialApp) = 1"
  by (simp add: model_defs)




text \<open>
  C8, as the code has it. A remote channel error sets the status to \<^verbatim>\<open>ERROR\<close> and then runs
  \<^verbatim>\<open>stopSession\<close>, which leaves it \<^verbatim>\<open>DISCONNECTED\<close> with the face idle. A refused microphone,
  or a channel that fails to open, during a \<^verbatim>\<open>startSession\<close> that passed its guard runs the
  \<^verbatim>\<open>catch\<close> block: the status is \<^verbatim>\<open>ERROR\<close> and the face idle when the call ends, and no
  timer has been set that would change it.
\<close>

theorem connection_errors_end_states:
  "onerror s = stopSession (s\<lparr>status := ERROR\<rparr>) \<and>
   status (onerror s) = DISCONNECTED \<and> currentStatus (onerror s) = Idle \<and>
   (captured \<noteq> CONNECTING \<and> captured \<noteq> CONNECTED \<longrightarrow>
      startSession captured False fulfilled s =
        (fst (startSession_begin captured s))\<lparr>status := ERROR, currentStatus := Idle\<rparr> \<and>
      status (startSession captured False fulfilled s) = ERROR \<and>
      currentStatus (startSession captured False fulfilled s) = Idle \<and>
      timers (startSession captured False fulfilled s) = timers s \<and>
      status (startSession captured True False s) = ERROR \<and>
      currentStatus (startSession captured True False s) = Idle \<and>
      timers (startSession captured True False s) = timers s)"
proof (intro conjI impI)
  show "onerror s = stopSession (s\<lparr>status := ERROR\<rparr>)"
    by (simp add: onerror_def)
  show "status (onerror s) = DISCONNECTED" and "currentStatus (onerror s) = Idle"
    by (simp_all add: onerror_def stopSession_fields)
next
  assume g: "captured \<noteq> CONNECTING \<and> captured \<noteq> CONNECTED"
  then show r: "startSession captured False fulfilled s =
        (fst (startSession_begin captured s))\<lparr>status := ERROR, currentStatus := Idle\<rparr>"
    by (simp add: startSession_refused)
  show "status (startSession captured False fulfilled s) = ERROR"
    and "currentStatus (startSession captured False fulfilled s) = Idle"
    by (simp_all add: r)
  show "status (startSession captured True False s) = ERROR"
    and "currentStatus (startSession captured True False s) = Idle"
    using g by (simp_all add: startSession_rejected)
  show "timers (startSession captured False fulfilled s) = timers s"
    and "timers (startSession captured True False s) = timers s"
    by (rule startSession_timers)+
qed

theorem connection_errors_end_states_witness:
  "status (onerror connectedApp) = DISCONNECTED \<and>
   status (startSession DISCONNECTED False True (stopSession connectedApp)) = ERROR \<and>
   currentStatus (startSession DISCONNECTED False True (stopSession connectedApp)) = Idle \<and>
   status (startSession DISCONNECTED True False initialApp) = ERROR"
proof -
  have a: "DISCONNECTED \<noteq> CONNECTING \<and> DISCONNECTED \<noteq> CONNECTED"
    by simp
  from connection_errors_end_states [of connectedApp]
  have 1: "status (onerror connectedApp) = DISCONNECTED"
    by blast
  from connection_errors_end_states [of "stopSession connectedApp" DISCONNECTED True] a
  have 2: "status (startSession DISCONNECTED False True (stopSession connectedApp)) = ERROR"
    and 3: "currentStatus (startSession DISCONNECTED False True (stopSession connectedApp)) = Idle"
    by blast+
  from connection_errors_end_states [of initialApp DISCONNECTED] a
  have 4: "status (startSession DISCONNECTED True False initialApp) = ERROR"
    by blast
  from 1 2 3 4 show ?thesis by blast
qed

theorem refused_microphone_stays_error_counterexample:
  "startSession_gotUserMedia False (fst (startSession_begin DISCONNECTED initialApp)) =
     (startSession DISCONNECTED False True initialApp, Returned) \<and>
   status (startSession DISCONNECTED False True initialApp) = ERROR \<and>
   timers (startSession DISCONNECTED False True initialApp) = []"
  by (simp add: model_defs)

text \<open>
  C9, as the code has it. Neither timer is ever cancelled. Every event other than the
  firing of a timer leaves each pending timer pending, a \<^verbatim>\<open>stopSession\<close> and a new
  \<^verbatim>\<open>startSession\<close> among them; a timer that fires leaves the others pending. When the
  delayed stop fires it runs \<^verbatim>\<open>stopSession\<close> on the state of that moment, whichever
  session is then held; when the recognizer restart fires it calls \<^verbatim>\<open>start()\<close> on its
  recognizer.
\<close>

theorem timers_never_cancelled:
  "((\<forall>j. e \<noteq> EvTimer j) \<longrightarrow> prefix (timers s) (timers (step dec e s))) \<and>
   (i < length (timers s) \<longrightarrow>
      timers (step dec (EvTimer i) s) = take i (timers s) @ drop (Suc i) (timers s) \<and>
      (snd (timers s ! i) = CallStopSession \<longrightarrow>
         step dec (EvTimer i) s =
           stopSession (s\<lparr>timers := take i (timers s) @ drop (Suc i) (timers s)\<rparr>)) \<and>
      (\<forall>r. snd (timers s ! i) = CallRecognitionStart r \<longrightarrow>
         effects (step dec (EvTimer i) s) = effects s @ [RecognitionStart r]))"
proof (intro conjI impI allI)
  assume "\<forall>j. e \<noteq> EvTimer j"
  then show "prefix (timers s) (timers (step dec e s))"
    by (cases e)
       (simp_all add: startSession_timers stopSession_fields onopen_timers onerror_def
          onclose_def source_onended_timers recognition_onerror_timers
          handleMessage_timers_prefix)
next
  assume i: "i < length (timers s)"
  then show "timers (step dec (EvTimer i) s) = take i (timers s) @ drop (Suc i) (timers s)"
    by (simp add: fireTimer_def runCallback_timers)
  show "step dec (EvTimer i) s =
      stopSession (s\<lparr>timers := take i (timers s) @ drop (Suc i) (timers s)\<rparr>)"
    if "snd (timers s ! i) = CallStopSession"
    using i that by (simp add: fireTimer_def)
  show "effects (step dec (EvTimer i) s) = effects s @ [RecognitionStart r]"
    if "snd (timers s ! i) = CallRecognitionStart r" for r
    using i that by (simp add: fireTimer_def call_def)
qed

theorem timers_never_cancelled_witness:
  "timers restartedApp = [(3000, CallStopSession)] \<and>
   prefix [(3000, CallStopSession)] (timers (step halfSecond EvStopSession restartedApp)) \<and>
   prefix [(3000, CallStopSession)]
     (timers (step halfSecond (EvStartSession DISCONNECTED True True)
        (stopSession restartedApp))) \<and>
   step halfSecond (EvTimer 0) restartedApp = stopSession (restartedApp\<lparr>timers := []\<rparr>)"
proof -
  have t: "timers restartedApp = [(3000, CallStopSession)]"
    by (simp add: restartedApp_def) (simp add: model_defs)
  have t': "timers (stopSession restartedApp) = [(3000, CallStopSession)]"
    by (simp add: stopSession_fields t)
  have ne: "\<forall>j. EvStopSession \<noteq> EvTimer j"
    "\<forall>j. EvStartSession DISCONNECTED True True \<noteq> EvTimer j"
    by simp_all
  from timers_never_cancelled [of EvStopSession restartedApp halfSecond] ne(1)
  have 1: "prefix (timers restartedApp) (timers (step halfSecond EvStopSession restartedApp))"
    by blast
  from timers_never_cancelled
    [of "EvStartSession DISCONNECTED True True" "stopSession restartedApp" halfSecond] ne(2)
  have 2: "prefix (timers (stopSession restartedApp))
      (timers (step halfSecond (EvStartSession DISCONNECTED True True)
        (stopSession restartedApp)))"
    by blast
  have i: "0 < length (timers restartedApp)" "snd (timers restartedApp ! 0) = CallStopSession"
    by (simp_all add: t)
  from timers_never_cancelled [of _ restartedApp _ 0] i
  have "step halfSecond (EvTimer 0) restartedApp =
      stopSession (restartedApp\<lparr>timers := take 0 (timers restartedApp) @
        drop (Suc 0) (timers restartedApp)\<rparr>)"
    by blast
  then have 3: "step halfSecond (EvTimer 0) restartedApp =
      stopSession (restartedApp\<lparr>timers := []\<rparr>)"
    by (simp add: t)
  from t 1 2 3 show ?thesis
    by (simp add: t')
qed

theorem stale_stop_ends_new_session_counterexample:
  "status restartedApp = CONNECTED \<and> sessionRef restartedApp = Some 5 \<and>
   timers restartedApp = [(3000, CallStopSession)] \<and>
   status (step halfSecond (EvTimer 0) restartedApp) = DISCONNECTED \<and>
   sessionRef (step halfSecond (EvTimer 0) restartedApp) = None \<and>
   effects (step halfSecond (EvTimer 0) restartedApp) =
     effects restartedApp @ [SessionClose 5, AudioCtxClose 3, AudioCtxClose 4]"
  by (simp add: restartedApp_def) (simp add: model_defs)

text \<open>
  C10. When the end of a source leaves the set of sources empty, the handler sets the
  face to listening whatever the status and the face were, and leaves the status alone.
  In particular, after \<^verbatim>\<open>stopSession\<close> has set the face to idle, the end of the last
  source sets it back to listening while the status stays \<^verbatim>\<open>DISCONNECTED\<close>.
\<close>

theorem drained_handler_unconditional:
  assumes "set_delete src (sourcesRef s) = []"
  shows "currentStatus (source_onended src s) = Listening \<and>
         status (source_onended src s) = status s \<and>
         currentStatus (stopSession s) = Idle \<and>
         currentStatus (source_onended src (stopSession s)) = Listening \<and>
         status (source_onended src (stopSession s)) = DISCONNECTED"
  using assms
  by (simp add: source_onended_def Let_def stopSession_fields)

theorem drained_handler_unconditional_witness:
  "sourcesRef playingApp = [3] \<and>
   currentStatus (stopSession playingApp) = Idle \<and>
   currentStatus (source_onended 3 (stopSession playingApp)) = Listening \<and>
   status (source_onended 3 (stopSession playingApp)) = DISCONNECTED"
proof -
  have s: "sourcesRef playingApp = [3]"
    by (simp add: playingApp_def connectedApp_eq) (simp add: model_defs)
  then have d: "set_delete 3 (sourcesRef playingApp) = []"
    by (simp add: set_delete_def)
  from drained_handler_unconditional [OF d] s show ?thesis
    by blast
qed

end
